theory Spec2Isabelle
  imports Main "HOL-Library.Sublist" "HOL-Library.AList"
begin

section \<open>JavaScript values and JSON text\<close>

text \<open>
  The component \<^verbatim>\<open>PersistFormikValues\<close> (file \<^verbatim>\<open>src/PersistFormikValues.tsx\<close>) moves
  form values between Formik and a key-value store as JSON text. The values it handles are
  modelled by a datatype of JavaScript values: \<^verbatim>\<open>undefined\<close>, \<^verbatim>\<open>null\<close>, booleans, numbers,
  BigInts, strings, arrays and plain objects. Numbers are the integer-valued ones, and their
  arithmetic is the arithmetic of the integers (a double is exact on integers below
  \<open>2^53\<close>); strings are lists of 8-bit characters, a character standing for the code unit
  of the same number. An object is the list of its own enumerable properties in property
  order. A BigInt is the representative here of the values \<^verbatim>\<open>JSON.stringify\<close> refuses
  with a \<^verbatim>\<open>TypeError\<close>, as it also does for a cyclic structure.
\<close>

datatype error = TypeError | SyntaxError | ReferenceError | StoreError string

datatype jsvalue =
    JUndefined
  | JNull
  | JBool bool
  | JNum int
  | JBigInt int
  | JStr string
  | JArr "jsvalue list"
  | JObj "(string \<times> jsvalue) list"

subsection \<open>Number to string\<close>

definition digit :: "nat \<Rightarrow> char" where
  "digit d = ''0123456789abcdef'' ! d"

fun show_nat :: "nat \<Rightarrow> string" where
  "show_nat n = (if n < 10 then [digit n] else show_nat (n div 10) @ [digit (n mod 10)])"

declare show_nat.simps [simp del]

definition show_int :: "int \<Rightarrow> string" where
  "show_int i = (if i < 0 then CHR ''-'' # show_nat (nat (- i)) else show_nat (nat i))"

subsection \<open>Own enumerable properties\<close>

text \<open>
  The own enumerable properties of a value, as an object spread and \<^verbatim>\<open>Object.keys\<close> see
  them: those of an object; the elements of an array and the characters of a string under
  their indices; none for the other values.
\<close>

fun own_props :: "jsvalue \<Rightarrow> (string \<times> jsvalue) list" where
  "own_props (JObj ps) = ps"
| "own_props (JArr xs) = zip (map show_nat [0..<length xs]) xs"
| "own_props (JStr s) = zip (map show_nat [0..<length s]) (map (\<lambda>c. JStr [c]) s)"
| "own_props v = []"

subsection \<open>\<^verbatim>\<open>JSON.stringify\<close>\<close>

text \<open>
  A string is quoted with the escapes of \<^verbatim>\<open>QuoteJSONString\<close>: the two-character escapes
  for backspace, tab, line feed, form feed, carriage return, the double quote and the
  backslash, and \<^verbatim>\<open>\u00XX\<close> for the other control characters.
\<close>

definition quote_char :: "char \<Rightarrow> string" where
  "quote_char c =
     (if c = CHR 0x08 then [CHR 0x5C, CHR ''b'']
      else if c = CHR 0x09 then [CHR 0x5C, CHR ''t'']
      else if c = CHR 0x0A then [CHR 0x5C, CHR ''n'']
      else if c = CHR 0x0C then [CHR 0x5C, CHR ''f'']
      else if c = CHR 0x0D then [CHR 0x5C, CHR ''r'']
      else if c = CHR 0x22 then [CHR 0x5C, CHR 0x22]
      else if c = CHR 0x5C then [CHR 0x5C, CHR 0x5C]
      else if (of_char c :: nat) < 32
        then [CHR 0x5C, CHR ''u'', CHR ''0'', CHR ''0'',
              digit (of_char c div 16), digit (of_char c mod 16)]
      else [c])"

definition quote :: "string \<Rightarrow> string" where
  "quote s = CHR 0x22 # concat (map quote_char s) @ [CHR 0x22]"

fun join :: "string list \<Rightarrow> string" where
  "join [] = []"
| "join [s] = s"
| "join (s # t # ss) = s @ CHR '','' # join (t # ss)"

text \<open>
  \<^verbatim>\<open>JSON.stringify(v)\<close> returns a string, returns \<^verbatim>\<open>undefined\<close> (for \<^verbatim>\<open>undefined\<close> itself:
  \<open>Inr None\<close>) or throws (\<open>Inl\<close>). Inside an array \<^verbatim>\<open>undefined\<close> is written \<^verbatim>\<open>null\<close>;
  a property whose value is \<^verbatim>\<open>undefined\<close> is left out.
\<close>

fun JSON_stringify :: "jsvalue \<Rightarrow> error + string option"
  and stringify_elems :: "jsvalue list \<Rightarrow> error + string list"
  and stringify_props :: "(string \<times> jsvalue) list \<Rightarrow> error + string list"
where
  "JSON_stringify JUndefined = Inr None"
| "JSON_stringify JNull = Inr (Some ''null'')"
| "JSON_stringify (JBool b) = Inr (Some (if b then ''true'' else ''false''))"
| "JSON_stringify (JNum n) = Inr (Some (show_int n))"
| "JSON_stringify (JBigInt n) = Inl TypeError"
| "JSON_stringify (JStr s) = Inr (Some (quote s))"
| "JSON_stringify (JArr xs) =
     (case stringify_elems xs of
        Inl e \<Rightarrow> Inl e
      | Inr ss \<Rightarrow> Inr (Some (CHR ''['' # join ss @ '']'')))"
| "JSON_stringify (JObj ps) =
     (case stringify_props ps of
        Inl e \<Rightarrow> Inl e
      | Inr ss \<Rightarrow> Inr (Some (CHR ''{'' # join ss @ ''}'')))"
| "stringify_elems [] = Inr []"
| "stringify_elems (x # xs) =
     (case JSON_stringify x of
        Inl e \<Rightarrow> Inl e
      | Inr r \<Rightarrow>
          (case stringify_elems xs of
             Inl e \<Rightarrow> Inl e
           | Inr ss \<Rightarrow> Inr ((case r of None \<Rightarrow> ''null'' | Some s \<Rightarrow> s) # ss)))"
| "stringify_props [] = Inr []"
| "stringify_props ((k, v) # ps) =
     (case JSON_stringify v of
        Inl e \<Rightarrow> Inl e
      | Inr r \<Rightarrow>
          (case stringify_props ps of
             Inl e \<Rightarrow> Inl e
           | Inr ss \<Rightarrow>
               Inr ((case r of None \<Rightarrow> [] | Some s \<Rightarrow> [quote k @ CHR '':'' # s]) @ ss)))"

section \<open>The hash of the initial values: \<^verbatim>\<open>getHash\<close>\<close>

text \<open>
  \<^verbatim>\<open>
  const getHash = (obj: any, specificity: number = 7) => {
    let hc = 0;
    try {
      const chars = JSON.stringify(obj).replace(/\{|\"|\}|\:|,/g, '');
      const len = chars.length;
      for (let i = 0; i < len; i++) {
        hc += chars.charCodeAt(i) * specificity;
      }
    } catch (error) {
      hc = 0;
    }
    return hc;
  };
  \<close>
\<close>

definition strip_punctuation :: "string \<Rightarrow> string" where
  "strip_punctuation s =
     filter (\<lambda>c. c \<notin> {CHR ''{'', CHR 0x22, CHR ''}'', CHR '':'', CHR '',''}) s"

definition charCodeAt :: "string \<Rightarrow> nat \<Rightarrow> int" where
  "charCodeAt chars i = of_char (chars ! i)"

function hash_loop :: "string \<Rightarrow> int \<Rightarrow> nat \<Rightarrow> int \<Rightarrow> int" where
  "hash_loop chars specificity i hc =
     (if i < length chars
      then hash_loop chars specificity (i + 1) (hc + charCodeAt chars i * specificity)
      else hc)"
  by pat_completeness auto
termination
  by (relation "measure (\<lambda>(chars, specificity, i, hc). length chars - i)") auto

declare hash_loop.simps [simp del]

text \<open>
  The second parameter is optional: \<open>None\<close> is a call without it (or with
  \<^verbatim>\<open>undefined\<close>), which takes the default 7. \<^verbatim>\<open>JSON.stringify\<close> throwing, and the
  \<^verbatim>\<open>TypeError\<close> of calling \<^verbatim>\<open>replace\<close> on \<^verbatim>\<open>undefined\<close>, both end in the \<^verbatim>\<open>catch\<close>.
\<close>

definition getHash :: "jsvalue \<Rightarrow> int option \<Rightarrow> int" where
  "getHash obj specificity_arg =
     (let specificity = (case specificity_arg of None \<Rightarrow> 7 | Some s \<Rightarrow> s) in
      case JSON_stringify obj of
        Inl e \<Rightarrow> 0
      | Inr None \<Rightarrow> 0
      | Inr (Some text) \<Rightarrow> hash_loop (strip_punctuation text) specificity 0 0)"

section \<open>The props of the component and the store object\<close>

datatype behaviour = Sync | Async | Throws error | Rejects error

datatype call = SetItem string string | RemoveItem string

text \<open>
  A store (\<^verbatim>\<open>Storage\<close> or \<^verbatim>\<open>CustomStorage\<close>): its entries, what each of its three
  operations does when called (it returns, it returns a promise that is fulfilled, it
  throws, it returns a promise that is rejected), and the record of the writing calls made
  on it.
\<close>

record Storage =
  entries :: "(string \<times> string) list"
  onGet :: behaviour
  onSet :: behaviour
  onRemove :: behaviour
  invoked :: "call list"

datatype storage_choice = LocalStorageName | SessionStorageName | StorageObject Storage

record PersistFormikValuesProps =
  name :: string
  debounce :: "nat option"
  storage :: "storage_choice option"
  persistInvalid :: "bool option"
  hashInitials :: "bool option"
  hashSpecificity :: "int option"
  ignoreValues :: "string list option"
  parseValues :: "(jsvalue \<Rightarrow> jsvalue) option"

definition truthy :: "bool option \<Rightarrow> bool" where
  "truthy b = (b = Some True)"

section \<open>The storage key\<close>

text \<open>
  \<^verbatim>\<open>
  const { name: defaultName, hashInitials, hashSpecificity } = props;
  const { initialValues } = useFormikContext<any>();
  const keyName = `${defaultName}${KEY_DELIMITER}`;

  const name = useMemo(
    () =>
      hashInitials
        ? `${keyName}${getHash(initialValues, hashSpecificity)}`
        : defaultName,
    [defaultName, hashInitials, JSON.stringify(initialValues), hashSpecificity]
  );
  \<close>
  The dependency array is an argument of \<^verbatim>\<open>useMemo\<close>, so it is evaluated at every render
  before \<^verbatim>\<open>useMemo\<close> is entered: \<^verbatim>\<open>JSON.stringify(initialValues)\<close> runs there outside any
  \<^verbatim>\<open>try\<close>. The memoised value depends on the dependencies only, so the function below,
  which computes it afresh, returns what \<^verbatim>\<open>useMemo\<close> returns.
\<close>

definition KEY_DELIMITER :: string where
  "KEY_DELIMITER = ''_''"

definition keyName_of :: "PersistFormikValuesProps \<Rightarrow> string" where
  "keyName_of props = name props @ KEY_DELIMITER"

definition storageKey :: "PersistFormikValuesProps \<Rightarrow> jsvalue \<Rightarrow> error + string" where
  "storageKey props initialValues =
     (case JSON_stringify initialValues of
        Inl e \<Rightarrow> Inl e
      | Inr dep \<Rightarrow>
          Inr (if truthy (hashInitials props)
               then keyName_of props @ show_int (getHash initialValues (hashSpecificity props))
               else name props))"

section \<open>The store\<close>

text \<open>
  What a call of a store operation gives back: a value, an exception, a promise that is
  fulfilled with a value, or a promise that is rejected.
\<close>

datatype 'a completion = Returned 'a | Thrown error | Fulfilled 'a | Rejected error

definition getItem :: "Storage \<Rightarrow> string \<Rightarrow> string option completion" where
  "getItem st k =
     (case onGet st of
        Sync \<Rightarrow> Returned (map_of (entries st) k)
      | Async \<Rightarrow> Fulfilled (map_of (entries st) k)
      | Throws e \<Rightarrow> Thrown e
      | Rejects e \<Rightarrow> Rejected e)"

text \<open>
  \<^verbatim>\<open>setItem\<close> receives what \<^verbatim>\<open>JSON.stringify\<close> returned; a store keeps strings, so
  \<^verbatim>\<open>undefined\<close> is kept as the string \<^verbatim>\<open>undefined\<close>, as \<^verbatim>\<open>Storage.setItem\<close> converts it.
\<close>

definition DOMString :: "string option \<Rightarrow> string" where
  "DOMString v = (case v of None \<Rightarrow> ''undefined'' | Some s \<Rightarrow> s)"

definition setItem :: "Storage \<Rightarrow> string \<Rightarrow> string option \<Rightarrow> unit completion \<times> Storage" where
  "setItem st k v =
     (let st' = st\<lparr>invoked := invoked st @ [SetItem k (DOMString v)]\<rparr> in
      case onSet st of
        Sync \<Rightarrow> (Returned (), st'\<lparr>entries := AList.update k (DOMString v) (entries st)\<rparr>)
      | Async \<Rightarrow> (Fulfilled (), st'\<lparr>entries := AList.update k (DOMString v) (entries st)\<rparr>)
      | Throws e \<Rightarrow> (Thrown e, st')
      | Rejects e \<Rightarrow> (Rejected e, st'))"

definition removeItem :: "Storage \<Rightarrow> string \<Rightarrow> unit completion \<times> Storage" where
  "removeItem st k =
     (let st' = st\<lparr>invoked := invoked st @ [RemoveItem k]\<rparr> in
      case onRemove st of
        Sync \<Rightarrow> (Returned (), st'\<lparr>entries := AList.delete k (entries st)\<rparr>)
      | Async \<Rightarrow> (Fulfilled (), st'\<lparr>entries := AList.delete k (entries st)\<rparr>)
      | Throws e \<Rightarrow> (Thrown e, st')
      | Rejects e \<Rightarrow> (Rejected e, st'))"

definition Object_keys :: "Storage \<Rightarrow> string list" where
  "Object_keys st = map fst (entries st)"

section \<open>Resolving the store: \<^verbatim>\<open>useBrowser\<close> and \<^verbatim>\<open>useStorage\<close>\<close>

text \<open>
  \<^verbatim>\<open>
  const useBrowser = () => !!window;

  const useStorage = (props) => {
    const { storage = 'localStorage' } = props;
    const isBrowser = useBrowser();
    switch (storage) {
      case 'sessionStorage':
        return isBrowser ? window.sessionStorage : undefined;
      case 'localStorage':
        return isBrowser ? window.localStorage : undefined;
      default:
        return storage;
    }
  };
  \<close>
  The expression \<^verbatim>\<open>!!window\<close> reads the global identifier \<^verbatim>\<open>window\<close>. The global
  environment either has no binding of that name (Node.js, a server-side render), and then
  reading it throws a \<^verbatim>\<open>ReferenceError\<close>; or it binds the name to a falsy value; or to
  the window object of a browser.
\<close>

record Window =
  localStorage :: Storage
  sessionStorage :: Storage

datatype global_window = Unbound | Falsy | Browser Window

definition useBrowser :: "global_window \<Rightarrow> error + bool" where
  "useBrowser g =
     (case g of
        Unbound \<Rightarrow> Inl ReferenceError
      | Falsy \<Rightarrow> Inr False
      | Browser w \<Rightarrow> Inr True)"

fun window_of :: "global_window \<Rightarrow> Window option" where
  "window_of (Browser w) = Some w"
| "window_of g = None"

definition useStorage :: "global_window \<Rightarrow> PersistFormikValuesProps \<Rightarrow> error + Storage option" where
  "useStorage g props =
     (let choice = (case storage props of None \<Rightarrow> LocalStorageName | Some s \<Rightarrow> s) in
      case useBrowser g of
        Inl e \<Rightarrow> Inl e
      | Inr isBrowser \<Rightarrow>
          (case choice of
             SessionStorageName \<Rightarrow>
               Inr (if isBrowser then map_option sessionStorage (window_of g) else None)
           | LocalStorageName \<Rightarrow>
               Inr (if isBrowser then map_option localStorage (window_of g) else None)
           | StorageObject st \<Rightarrow> Inr (Some st)))"

section \<open>The write path\<close>

text \<open>
  \<^verbatim>\<open>key.indexOf(keyName)\<close>: the first position at which \<^verbatim>\<open>keyName\<close> occurs in
  \<^verbatim>\<open>key\<close>, or \<open>-1\<close>.
\<close>

fun indexOf_from :: "string \<Rightarrow> string \<Rightarrow> nat \<Rightarrow> int" where
  "indexOf_from [] pat i = (if pat = [] then int i else - 1)"
| "indexOf_from (c # cs) pat i =
     (if prefix pat (c # cs) then int i else indexOf_from cs pat (Suc i))"

definition indexOf :: "string \<Rightarrow> string \<Rightarrow> int" where
  "indexOf s pat = indexOf_from s pat 0"

text \<open>
  A run of a callback ends normally or with an exception that nothing in the component
  catches; either way it leaves a state behind.
\<close>

datatype 's run = Done 's | Uncaught error 's

fun map_run :: "('a \<Rightarrow> 'b) \<Rightarrow> 'a run \<Rightarrow> 'b run" where
  "map_run f (Done s) = Done (f s)"
| "map_run f (Uncaught e s) = Uncaught e (f s)"

text \<open>
  \<^verbatim>\<open>
  const handlePersistValues = useCallback(
    (values: FormikValues) => {
      if (storage) {
        storage.setItem(name, JSON.stringify(values));
        // Remove all past cached values for this form
        Object.keys(storage).forEach(key => {
          if (key.indexOf(keyName) > -1 && key !== name) {
            storage.removeItem(key);
          }
        });
      }
    },
    [storage]
  );
  \<close>
  The store, \<^verbatim>\<open>name\<close> and \<^verbatim>\<open>keyName\<close> are variables of the closure of the callback: they
  are the first three arguments below. The results of \<^verbatim>\<open>setItem\<close> and \<^verbatim>\<open>removeItem\<close>
  are dropped: a promise they return is neither awaited nor given a handler.
  \<^verbatim>\<open>Object.keys(storage)\<close> are the keys of the entries, as for a \<^verbatim>\<open>Storage\<close> object (a
  custom store is required to let its keys be enumerated), taken once before the loop.
\<close>

fun removePast :: "string \<Rightarrow> string \<Rightarrow> string list \<Rightarrow> Storage \<Rightarrow> Storage run" where
  "removePast keyName key [] st = Done st"
| "removePast keyName key (k # ks) st =
     (if indexOf k keyName > - 1 \<and> k \<noteq> key
      then (case removeItem st k of
              (Thrown e, st') \<Rightarrow> Uncaught e st'
            | (c, st') \<Rightarrow> removePast keyName key ks st')
      else removePast keyName key ks st)"

definition handlePersistValues ::
  "Storage option \<Rightarrow> string \<Rightarrow> string \<Rightarrow> jsvalue \<Rightarrow> Storage option run" where
  "handlePersistValues store key keyName vals =
     (case store of
        None \<Rightarrow> Done None
      | Some st \<Rightarrow>
          (case JSON_stringify vals of
             Inl e \<Rightarrow> Uncaught e (Some st)
           | Inr text \<Rightarrow>
               (case setItem st key text of
                  (Thrown e, st') \<Rightarrow> Uncaught e (Some st')
                | (c, st') \<Rightarrow> map_run Some (removePast keyName key (Object_keys st') st'))))"

text \<open>
  Modelled from the spec: \<^verbatim>\<open>omit\<close> of the package \<^verbatim>\<open>lodash.omit\<close>, which is not part of
  the repository. It returns a new object with the own enumerable properties of its first
  argument, those named in the list left out (shallow field-name exclusion).
\<close>

definition omit :: "jsvalue \<Rightarrow> string list \<Rightarrow> jsvalue" where
  "omit object paths = JObj (filter (\<lambda>(k, v). k \<notin> set paths) (own_props object))"

text \<open>
  \<^verbatim>\<open>
  const handlePersist = useCallback(() => {
    if (isValid || persistInvalid) {
      const valuesToPersist = ignoreValues
        ? omit(values, ignoreValues)
        : values;
      persistValues(
        parseValues ? parseValues(valuesToPersist) : valuesToPersist
      );
    }
  }, [stringValues, isValid, persistInvalid]);
  \<close>
  \<^verbatim>\<open>persistValues\<close> is \<^verbatim>\<open>handlePersistValues\<close> with the store, the key and the key prefix
  of its closure.
\<close>

definition handlePersist ::
  "PersistFormikValuesProps \<Rightarrow> bool \<Rightarrow> jsvalue \<Rightarrow> string \<Rightarrow> string \<Rightarrow>
   Storage option \<Rightarrow> Storage option run" where
  "handlePersist props isValid vals key keyName store =
     (if isValid \<or> truthy (persistInvalid props)
      then
        (let valuesToPersist =
               (case ignoreValues props of
                  Some ignored \<Rightarrow> omit vals ignored
                | None \<Rightarrow> vals)
         in handlePersistValues store key keyName
              (case parseValues props of
                 Some parse \<Rightarrow> parse valuesToPersist
               | None \<Rightarrow> valuesToPersist))
      else Done store)"

text \<open>
  \<^verbatim>\<open>useDebounce(handlePersist, debounce, [stringValues, isValid, persistInvalid])\<close> calls
  the \<^verbatim>\<open>handlePersist\<close> of some of the renders, one after the other. Each such call is
  given by the validity flag and the values of its render; an exception that leaves one
  call does not stop the later ones.
\<close>

fun debounced :: "PersistFormikValuesProps \<Rightarrow> string \<Rightarrow> string \<Rightarrow> (bool \<times> jsvalue) list \<Rightarrow>
    Storage option \<Rightarrow> Storage option \<times> error list" where
  "debounced props key keyName [] store = (store, [])"
| "debounced props key keyName ((isValid, vals) # fired) store =
     (case handlePersist props isValid vals key keyName store of
        Done store' \<Rightarrow> debounced props key keyName fired store'
      | Uncaught e store' \<Rightarrow>
          (case debounced props key keyName fired store' of
             (store'', es) \<Rightarrow> (store'', e # es)))"

section \<open>The read path\<close>

text \<open>
  \<^verbatim>\<open>
  const state = useMemo(() => {
    if (storage) {
      let item;
      Promise.resolve(storage.getItem(name))
        .then(value => {
          item = value;
        })
        .catch(error => console.error('ERROR GETTING ITEM ', error));
      return item;
    }
    return null;
  }, [name, storage]);
  \<close>
  The callbacks given to \<^verbatim>\<open>then\<close> and \<^verbatim>\<open>catch\<close> are reactions of a promise: they are
  queued as jobs and run only after the code that is running has returned, also when the
  promise is already settled, as the one \<^verbatim>\<open>Promise.resolve\<close> makes of a plain value is. So
  \<^verbatim>\<open>return item\<close> runs before either of them. The function returns the value of
  \<^verbatim>\<open>item\<close> at that moment together with the queued job. An exception thrown by
  \<^verbatim>\<open>getItem\<close> itself leaves the function (and the render).
\<close>

datatype persisted = Undefined | Null | Payload string

datatype job = Then "string option" | Catch error

datatype diagnostic = ErrorGettingItem error | ParseNotPossible error

definition persistedState :: "Storage option \<Rightarrow> string \<Rightarrow> error + persisted \<times> job list" where
  "persistedState store key =
     (case store of
        None \<Rightarrow> Inr (Null, [])
      | Some st \<Rightarrow>
          (let item = Undefined in
           case getItem st key of
             Thrown e \<Rightarrow> Inl e
           | Returned v \<Rightarrow> Inr (item, [Then v])
           | Fulfilled v \<Rightarrow> Inr (item, [Then v])
           | Rejected e \<Rightarrow> Inr (item, [Catch e])))"

section \<open>Restoring the persisted values\<close>

text \<open>
  What the component changes outside the store: the values of the form (through
  \<^verbatim>\<open>setValues\<close>, whose calls are recorded) and the console.
\<close>

record session =
  formValues :: jsvalue
  setValuesCalls :: "jsvalue list"
  console :: "diagnostic list"

definition setValues :: "jsvalue \<Rightarrow> session \<Rightarrow> session" where
  "setValues v s = s\<lparr>formValues := v, setValuesCalls := setValuesCalls s @ [v]\<rparr>"

text \<open>
  A queued job runs: the \<^verbatim>\<open>then\<close> callback assigns the local variable \<^verbatim>\<open>item\<close>, which
  nothing reads after the function has returned; the \<^verbatim>\<open>catch\<close> callback writes to the
  console.
\<close>

fun run_job :: "job \<Rightarrow> session \<Rightarrow> session" where
  "run_job (Then v) s = s"
| "run_job (Catch e) s = s\<lparr>console := console s @ [ErrorGettingItem e]\<rparr>"

text \<open>
  The object spread \<^verbatim>\<open>{ ...a, ...b }\<close> defines the own enumerable properties of \<^verbatim>\<open>a\<close>,
  then those of \<^verbatim>\<open>b\<close>, on a new object. A property that exists keeps its place and takes
  the new value; a new one whose name is an array index goes among the array indices in
  ascending order, which come first; any other new one goes last.
\<close>

definition index_value :: "string \<Rightarrow> int" where
  "index_value k = foldl (\<lambda>n c. 10 * n + (of_char c - 48)) 0 k"

definition is_index :: "string \<Rightarrow> bool" where
  "is_index k =
     (k \<noteq> [] \<and> list_all (\<lambda>c. c \<in> set ''0123456789'') k
      \<and> (k = ''0'' \<or> hd k \<noteq> CHR ''0'') \<and> index_value k < 4294967295)"

fun insert_index :: "string \<Rightarrow> jsvalue \<Rightarrow> (string \<times> jsvalue) list \<Rightarrow> (string \<times> jsvalue) list" where
  "insert_index k v [] = [(k, v)]"
| "insert_index k v ((k', v') # ps) =
     (if is_index k' \<and> index_value k' < index_value k
      then (k', v') # insert_index k v ps
      else (k, v) # (k', v') # ps)"

definition define_prop :: "string \<Rightarrow> jsvalue \<Rightarrow> (string \<times> jsvalue) list \<Rightarrow> (string \<times> jsvalue) list" where
  "define_prop k v ps =
     (if is_index k \<and> k \<notin> fst ` set ps then insert_index k v ps else AList.update k v ps)"

definition spread :: "jsvalue \<Rightarrow> jsvalue \<Rightarrow> jsvalue" where
  "spread a b = JObj (fold (\<lambda>(k, v). define_prop k v) (own_props a @ own_props b) [])"

text \<open>
  \<^verbatim>\<open>
  const stringValues = JSON.stringify(values);
  ...
  useEffect(() => {
    if (persistedString) {
      // Catches invalid json
      try {
        const persistedValues = JSON.parse(persistedString);
        const newValues = { ...initialValues, ...persistedValues };
        // Initial values should be merged with persisted
        if (stringValues !== JSON.stringify(newValues)) {
          setValues(newValues);
        }
      } catch (error) {
        console.error('Parse persisted values is not possible', error);
      }
    }
  }, [persistedString]);
  \<close>
  \<^verbatim>\<open>JSON.parse\<close> belongs to the runtime. The effect takes it as the parameter \<open>parse\<close>,
  which returns the parsed value or the error thrown; what is proved of the effect holds
  for every such function. \<^verbatim>\<open>stringValues\<close> is computed by the render the effect
  belongs to.
\<close>

definition restoreEffect ::
  "(string \<Rightarrow> error + jsvalue) \<Rightarrow> jsvalue \<Rightarrow> string option \<Rightarrow> persisted \<Rightarrow> session \<Rightarrow> session" where
  "restoreEffect parse initialValues stringValues persistedString s =
     (case persistedString of
        Undefined \<Rightarrow> s
      | Null \<Rightarrow> s
      | Payload text \<Rightarrow>
          (if text = [] then s
           else
             (case parse text of
                Inl error \<Rightarrow> s\<lparr>console := console s @ [ParseNotPossible error]\<rparr>
              | Inr persistedValues \<Rightarrow>
                  (let newValues = spread initialValues persistedValues in
                   case JSON_stringify newValues of
                     Inl error \<Rightarrow> s\<lparr>console := console s @ [ParseNotPossible error]\<rparr>
                   | Inr text' \<Rightarrow>
                       if stringValues \<noteq> text' then setValues newValues s else s))))"

text \<open>
  The first render of the component and what follows it: the key, the store, the memoised
  state and \<^verbatim>\<open>stringValues\<close> are computed (an exception in any of them leaves the
  render), the queued jobs run, then the effect runs with the memoised state as
  \<^verbatim>\<open>persistedString\<close>.
\<close>

definition firstRender ::
  "global_window \<Rightarrow> PersistFormikValuesProps \<Rightarrow> (string \<Rightarrow> error + jsvalue) \<Rightarrow> jsvalue \<Rightarrow>
   session \<Rightarrow> error + session" where
  "firstRender g props parse initialValues s =
     (case storageKey props initialValues of
        Inl e \<Rightarrow> Inl e
      | Inr key \<Rightarrow>
          (case useStorage g props of
             Inl e \<Rightarrow> Inl e
           | Inr store \<Rightarrow>
               (case persistedState store key of
                  Inl e \<Rightarrow> Inl e
                | Inr (persistedString, jobs) \<Rightarrow>
                    (case JSON_stringify (formValues s) of
                       Inl e \<Rightarrow> Inl e
                     | Inr stringValues \<Rightarrow>
                         Inr (restoreEffect parse initialValues stringValues persistedString
                                (fold run_job jobs s))))))"

section \<open>A parser of JSON text\<close>

text \<open>
  A parser for the JSON texts of the value model: \<^verbatim>\<open>null\<close>, \<^verbatim>\<open>true\<close>, \<^verbatim>\<open>false\<close>,
  integers, strings of 8-bit characters, arrays and objects, with white space between
  tokens. It is used to run the restore effect on concrete payloads. A number with a
  fraction or an exponent and a \<^verbatim>\<open>\u\<close> escape of a code unit above 255 are outside that value
  model. The first argument of \<open>parse_value\<close> bounds the depth of the nested calls; the
  bound \<open>JSON_parse\<close> gives, twice the length of the text plus two, is not reached, since
  of two calls in a row one at least reads a character.
\<close>

definition is_ws :: "char \<Rightarrow> bool" where
  "is_ws c = (c = CHR 0x20 \<or> c = CHR 0x09 \<or> c = CHR 0x0A \<or> c = CHR 0x0D)"

definition skip_ws :: "string \<Rightarrow> string" where
  "skip_ws s = dropWhile is_ws s"

definition is_digit :: "char \<Rightarrow> bool" where
  "is_digit c = (c \<in> set ''0123456789'')"

definition hex_value :: "char \<Rightarrow> nat option" where
  "hex_value c =
     (if is_digit c then Some (of_char c - 48)
      else if c \<in> set ''abcdef'' then Some (of_char c - 87)
      else if c \<in> set ''ABCDEF'' then Some (of_char c - 55)
      else None)"

definition unescape :: "char \<Rightarrow> char option" where
  "unescape e =
     (if e = CHR 0x22 then Some (CHR 0x22)
      else if e = CHR 0x5C then Some (CHR 0x5C)
      else if e = CHR ''/'' then Some (CHR ''/'')
      else if e = CHR ''b'' then Some (CHR 0x08)
      else if e = CHR ''f'' then Some (CHR 0x0C)
      else if e = CHR ''n'' then Some (CHR 0x0A)
      else if e = CHR ''r'' then Some (CHR 0x0D)
      else if e = CHR ''t'' then Some (CHR 0x09)
      else None)"

definition cons_char :: "char \<Rightarrow> (string \<times> string) option \<Rightarrow> (string \<times> string) option" where
  "cons_char c r = (case r of None \<Rightarrow> None | Some (s, rest) \<Rightarrow> Some (c # s, rest))"

fun parse_chars :: "string \<Rightarrow> (string \<times> string) option" where
  "parse_chars [] = None"
| "parse_chars [c] = (if c = CHR 0x22 then Some ([], []) else None)"
| "parse_chars (c # e # cs) =
     (if c = CHR 0x22 then Some ([], e # cs)
      else if c = CHR 0x5C then
        (if e = CHR ''u'' then
           (case (map hex_value (take 4 cs)) of
              [Some 0, Some 0, Some x, Some y] \<Rightarrow>
                cons_char (char_of (16 * x + y)) (parse_chars (drop 4 cs))
            | _ \<Rightarrow> None)
         else
           (case unescape e of
              None \<Rightarrow> None
            | Some ch \<Rightarrow> cons_char ch (parse_chars cs)))
      else if (of_char c :: nat) < 32 then None
      else cons_char c (parse_chars (e # cs)))"

definition parse_number :: "string \<Rightarrow> (int \<times> string) option" where
  "parse_number s =
     (let negative = (s \<noteq> [] \<and> hd s = CHR ''-'');
          s1 = (if negative then tl s else s);
          ds = takeWhile is_digit s1;
          rest = dropWhile is_digit s1
      in if ds = [] \<or> (length ds > 1 \<and> hd ds = CHR ''0'') then None
         else if rest \<noteq> [] \<and> hd rest \<in> set ''.eE'' then None
         else Some ((if negative then - 1 else 1) * index_value ds, rest))"

fun parse_value :: "nat \<Rightarrow> string \<Rightarrow> (jsvalue \<times> string) option"
  and parse_elements :: "nat \<Rightarrow> string \<Rightarrow> (jsvalue list \<times> string) option"
  and parse_members :: "nat \<Rightarrow> string \<Rightarrow> ((string \<times> jsvalue) list \<times> string) option"
where
  "parse_value 0 s = None"
| "parse_value (Suc n) s =
     (let t = skip_ws s in
      if t = [] then None
      else if hd t = CHR ''{'' then
        (if skip_ws (tl t) \<noteq> [] \<and> hd (skip_ws (tl t)) = CHR ''}''
         then Some (JObj [], tl (skip_ws (tl t)))
         else (case parse_members n (tl t) of
                 None \<Rightarrow> None
               | Some (ms, rest) \<Rightarrow> Some (JObj (fold (\<lambda>(k, v). define_prop k v) ms []), rest)))
      else if hd t = CHR ''['' then
        (if skip_ws (tl t) \<noteq> [] \<and> hd (skip_ws (tl t)) = CHR '']''
         then Some (JArr [], tl (skip_ws (tl t)))
         else (case parse_elements n (tl t) of
                 None \<Rightarrow> None
               | Some (vs, rest) \<Rightarrow> Some (JArr vs, rest)))
      else if hd t = CHR 0x22 then
        (case parse_chars (tl t) of
           None \<Rightarrow> None
         | Some (str, rest) \<Rightarrow> Some (JStr str, rest))
      else if prefix ''null'' t then Some (JNull, drop 4 t)
      else if prefix ''true'' t then Some (JBool True, drop 4 t)
      else if prefix ''false'' t then Some (JBool False, drop 5 t)
      else (case parse_number t of
              None \<Rightarrow> None
            | Some (i, rest) \<Rightarrow> Some (JNum i, rest)))"
| "parse_elements 0 s = None"
| "parse_elements (Suc n) s =
     (case parse_value n s of
        None \<Rightarrow> None
      | Some (v, rest) \<Rightarrow>
          (let t = skip_ws rest in
           if t = [] then None
           else if hd t = CHR '']'' then Some ([v], tl t)
           else if hd t = CHR '','' then
             (case parse_elements n (tl t) of
                None \<Rightarrow> None
              | Some (vs, rest') \<Rightarrow> Some (v # vs, rest'))
           else None))"
| "parse_members 0 s = None"
| "parse_members (Suc n) s =
     (let t = skip_ws s in
      if t = [] \<or> hd t \<noteq> CHR 0x22 then None
      else
        (case parse_chars (tl t) of
           None \<Rightarrow> None
         | Some (k, rest) \<Rightarrow>
             (let t1 = skip_ws rest in
              if t1 = [] \<or> hd t1 \<noteq> CHR '':'' then None
              else
                (case parse_value n (tl t1) of
                   None \<Rightarrow> None
                 | Some (v, rest2) \<Rightarrow>
                     (let t2 = skip_ws rest2 in
                      if t2 = [] then None
                      else if hd t2 = CHR ''}'' then Some ([(k, v)], tl t2)
                      else if hd t2 = CHR '','' then
                        (case parse_members n (tl t2) of
                           None \<Rightarrow> None
                         | Some (ms, rest3) \<Rightarrow> Some ((k, v) # ms, rest3))
                      else None)))))"

definition JSON_parse :: "string \<Rightarrow> error + jsvalue" where
  "JSON_parse text =
     (case parse_value (2 * length text + 2) text of
        None \<Rightarrow> Inl SyntaxError
      | Some (v, rest) \<Rightarrow> if skip_ws rest = [] then Inr v else Inl SyntaxError)"

section \<open>Auxiliary notions and concrete inputs\<close>

text \<open>The test of the pruning loop: the key contains the key prefix and is not the key written.\<close>

definition past :: "string \<Rightarrow> string \<Rightarrow> string \<Rightarrow> bool" where
  "past keyName key k = (indexOf k keyName > - 1 \<and> k \<noteq> key)"

text \<open>Props with the form name \<^verbatim>\<open>form\<close> and every option left out, and stores that accept
  every call, or fail as given.\<close>

abbreviation (input) default_props :: PersistFormikValuesProps where
  "default_props \<equiv> \<lparr>name = ''form'', debounce = None, storage = None, persistInvalid = None,
     hashInitials = None, hashSpecificity = None, ignoreValues = None, parseValues = None\<rparr>"

abbreviation (input) store_of :: "(string \<times> string) list \<Rightarrow> call list \<Rightarrow> Storage" where
  "store_of es cs \<equiv> \<lparr>entries = es, onGet = Sync, onSet = Sync, onRemove = Sync, invoked = cs\<rparr>"

abbreviation (input) failing_store :: "(string \<times> string) list \<Rightarrow> behaviour \<Rightarrow> behaviour \<Rightarrow> behaviour \<Rightarrow> Storage" where
  "failing_store es g s r \<equiv> \<lparr>entries = es, onGet = g, onSet = s, onRemove = r, invoked = []\<rparr>"

section \<open>Properties of the hash\<close>

lemma hash_loop_sum:
  "hash_loop chars s i hc = hc + s * (\<Sum>c\<leftarrow>drop i chars. of_char c)"
proof (induction chars s i hc rule: hash_loop.induct)
  case (1 chars s i hc)
  show ?case
  proof (cases "i < length chars")
    case True
    then have "drop i chars = chars ! i # drop (i + 1) chars"
      by (simp add: Cons_nth_drop_Suc)
    with True 1 show ?thesis
      by (simp add: hash_loop.simps [of chars s i hc] charCodeAt_def algebra_simps)
  next
    case False
    then show ?thesis
      by (simp add: hash_loop.simps [of chars s i hc])
  qed
qed

lemma getHash_sum:
  "getHash obj (Some s) =
     (case JSON_stringify obj of
        Inl e \<Rightarrow> 0
      | Inr None \<Rightarrow> 0
      | Inr (Some text) \<Rightarrow> s * (\<Sum>c\<leftarrow>strip_punctuation text. of_char c))"
  by (simp add: getHash_def hash_loop_sum split: sum.splits option.splits)

lemma getHash_linear: "getHash obj (Some s) = s * getHash obj (Some 1)"
  by (simp add: getHash_sum split: sum.splits option.splits)

lemma getHash_default: "getHash obj None = getHash obj (Some 7)"
  by (simp add: getHash_def)

lemma getHash_deterministic:
  "JSON_stringify a = JSON_stringify b \<Longrightarrow> getHash a s = getHash b s"
  by (simp add: getHash_def)

lemma storageKey_serializable:
  "JSON_stringify initialValues = Inr dep \<Longrightarrow>
   storageKey props initialValues =
     Inr (if truthy (hashInitials props)
          then name props @ ''_'' @ show_int (getHash initialValues (hashSpecificity props))
          else name props)"
  by (simp add: storageKey_def keyName_of_def KEY_DELIMITER_def)

lemma getHash_unserializable: "JSON_stringify obj = Inl e \<Longrightarrow> getHash obj s = 0"
  by (simp add: getHash_def)

lemmas eval_text =
  show_int_def show_nat.simps digit_def quote_def quote_char_def strip_punctuation_def

text \<open>
  Claim C4 (key resolution). The claim: for every form name, initial values and
  specificity the key is the form name when the hash flag is off and otherwise the form
  name, an underscore and the checksum, the checksum being 0 instead of a failure when the
  initial values cannot be serialised. \<open>getHash\<close> does return 0 there, and for initial
  values that serialise the key is the claimed one (\<open>storageKey_serializable\<close>). But with
  initial values that \<^verbatim>\<open>JSON.stringify\<close> refuses, here \<^verbatim>\<open>{a: 1n}\<close>, the render throws
  while the dependency array of \<^verbatim>\<open>useMemo\<close> is evaluated, and no key is resolved, with
  the hash flag on and with it off.
\<close>

theorem storageKey_unserializable_throws:
  "getHash (JObj [(''a'', JBigInt 1)]) None = 0
   \<and> storageKey \<lparr>name = ''form'', debounce = None, storage = None, persistInvalid = None,
        hashInitials = Some True, hashSpecificity = None, ignoreValues = None,
        parseValues = None\<rparr> (JObj [(''a'', JBigInt 1)]) = Inl TypeError
   \<and> storageKey \<lparr>name = ''form'', debounce = None, storage = None, persistInvalid = None,
        hashInitials = None, hashSpecificity = None, ignoreValues = None,
        parseValues = None\<rparr> (JObj [(''a'', JBigInt 1)]) = Inl TypeError"
  by (simp add: getHash_def storageKey_def)

text \<open>
  Claim C10 (the checksum is linear in the specificity). The checksum at specificity \<open>s\<close>
  is \<open>s\<close> times the checksum at specificity 1, and both are 0 when the object cannot be
  serialised. Two objects whose checksums agree at one specificity other than 0 agree at
  every specificity. At specificity 0 every checksum is 0, so there the checksums of any
  two objects agree, whatever they are at another specificity: the claim as stated, for
  every specificity, fails there.
\<close>

theorem getHash_specificity_linear:
  "getHash obj (Some s) = s * getHash obj (Some 1)
   \<and> (JSON_stringify bad = Inl e \<longrightarrow>
        getHash bad (Some s) = 0 \<and> s * getHash bad (Some 1) = 0)
   \<and> (s \<noteq> 0 \<and> getHash a (Some s) = getHash b (Some s) \<longrightarrow>
        getHash a (Some t) = getHash b (Some t))"
proof (intro conjI impI)
  show "getHash obj (Some s) = s * getHash obj (Some 1)"
    by (rule getHash_linear)
next
  assume "JSON_stringify bad = Inl e"
  then show "getHash bad (Some s) = 0" and "s * getHash bad (Some 1) = 0"
    by (simp_all add: getHash_unserializable)
next
  assume collide: "s \<noteq> 0 \<and> getHash a (Some s) = getHash b (Some s)"
  then have nonzero: "s \<noteq> 0" and same: "getHash a (Some s) = getHash b (Some s)"
    by simp_all
  from same have "s * getHash a (Some 1) = s * getHash b (Some 1)"
    using getHash_linear [of a s] getHash_linear [of b s] by simp
  with nonzero have "getHash a (Some 1) = getHash b (Some 1)"
    by simp
  then show "getHash a (Some t) = getHash b (Some t)"
    using getHash_linear [of a t] getHash_linear [of b t] by simp
qed

theorem getHash_specificity_linear_witness:
  "JSON_stringify (JObj [(''a'', JBigInt 1)]) = Inl TypeError
   \<and> getHash (JObj [(''a'', JBigInt 1)]) (Some 7) = 0
   \<and> (7::int) \<noteq> 0
   \<and> getHash (JObj [(''a'', JStr ''bc'')]) (Some 7) = getHash (JObj [(''a'', JStr ''cb'')]) (Some 7)
   \<and> getHash (JObj [(''a'', JStr ''bc'')]) (Some 3) = getHash (JObj [(''a'', JStr ''cb'')]) (Some 3)
   \<and> getHash (JObj [(''a'', JStr ''bc'')]) (Some 7) = 7 * getHash (JObj [(''a'', JStr ''bc'')]) (Some 1)"
proof -
  have bad: "JSON_stringify (JObj [(''a'', JBigInt 1)]) = Inl TypeError"
    by simp
  have collide: "(7::int) \<noteq> 0 \<and>
      getHash (JObj [(''a'', JStr ''bc'')]) (Some 7) = getHash (JObj [(''a'', JStr ''cb'')]) (Some 7)"
    by (simp add: getHash_sum eval_text)
  show ?thesis
    using bad collide
      getHash_specificity_linear [of "JObj [(''a'', JStr ''bc'')]" 7 "JObj [(''a'', JBigInt 1)]"
        TypeError "JObj [(''a'', JStr ''bc'')]" "JObj [(''a'', JStr ''cb'')]" 3]
    by simp
qed

theorem getHash_specificity_zero_counterexample:
  "getHash (JObj [(''a'', JNum 1)]) (Some 0) = getHash (JObj [(''a'', JNum 2)]) (Some 0)
   \<and> getHash (JObj [(''a'', JNum 1)]) (Some 1) \<noteq> getHash (JObj [(''a'', JNum 2)]) (Some 1)"
  by (simp add: getHash_sum eval_text)

section \<open>Properties of the write path\<close>

lemma indexOf_from_prefix: "prefix pat s \<Longrightarrow> indexOf_from s pat i = int i"
  by (cases s) auto

lemma indexOf_prefix: "prefix pat s \<Longrightarrow> indexOf s pat > - 1"
  by (simp add: indexOf_def indexOf_from_prefix)

lemma filter_delete:
  "P k \<Longrightarrow>
   filter (\<lambda>(k', v). \<not> (k' \<in> set ks \<and> P k')) (AList.delete k es) =
   filter (\<lambda>(k', v). \<not> (k' \<in> set (k # ks) \<and> P k')) es"
  by (induction es) auto

lemma filter_skip:
  "\<not> P k \<Longrightarrow>
   filter (\<lambda>(k', v). \<not> (k' \<in> set (k # ks) \<and> P k')) es =
   filter (\<lambda>(k', v). \<not> (k' \<in> set ks \<and> P k')) es"
  by (induction es) auto

lemma removePast_succeeds:
  "onRemove st = Sync \<or> onRemove st = Async \<Longrightarrow>
   removePast keyName key ks st =
     Done (st\<lparr>entries := filter (\<lambda>(k, v). \<not> (k \<in> set ks \<and> past keyName key k)) (entries st),
              invoked := invoked st @ map RemoveItem (filter (past keyName key) ks)\<rparr>)"
proof (induction ks arbitrary: st)
  case Nil
  then show ?case by simp
next
  case (Cons k ks)
  show ?case
  proof (cases "past keyName key k")
    case True
    let ?st = "st\<lparr>invoked := invoked st @ [RemoveItem k], entries := AList.delete k (entries st)\<rparr>"
    from Cons.prems have rm: "removeItem st k = (Returned (), ?st) \<or> removeItem st k = (Fulfilled (), ?st)"
      by (auto simp: removeItem_def)
    from Cons.prems have ok: "onRemove ?st = Sync \<or> onRemove ?st = Async" by simp
    from True rm have "removePast keyName key (k # ks) st = removePast keyName key ks ?st"
      by (auto simp: past_def)
    also have "\<dots> = Done (?st\<lparr>entries := filter (\<lambda>(k, v). \<not> (k \<in> set ks \<and> past keyName key k)) (entries ?st),
              invoked := invoked ?st @ map RemoveItem (filter (past keyName key) ks)\<rparr>)"
      by (rule Cons.IH [OF ok])
    also have "\<dots> = Done (st\<lparr>entries := filter (\<lambda>(k, v). \<not> (k \<in> set ks \<and> past keyName key k))
                                     (AList.delete k (entries st)),
              invoked := invoked st @ map RemoveItem (filter (past keyName key) (k # ks))\<rparr>)"
      using True by simp
    finally show ?thesis
      by (simp only: filter_delete [where P = "past keyName key", OF True])
  next
    case False
    then have "removePast keyName key (k # ks) st = removePast keyName key ks st"
      by (auto simp: past_def)
    also note Cons.IH [OF Cons.prems]
    finally show ?thesis
      using False by (simp only: filter_skip [where P = "past keyName key", OF False] filter.simps if_False)
  qed
qed

lemma handlePersistValues_succeeds:
  assumes "onSet st = Sync \<or> onSet st = Async" and "onRemove st = Sync \<or> onRemove st = Async"
    and "JSON_stringify vals = Inr text"
  shows "handlePersistValues (Some st) key keyName vals =
     Done (Some (st\<lparr>entries := filter (\<lambda>(k, v). \<not> past keyName key k)
                                (AList.update key (DOMString text) (entries st)),
                   invoked := invoked st @ SetItem key (DOMString text) #
                      map RemoveItem (filter (past keyName key)
                        (map fst (AList.update key (DOMString text) (entries st))))\<rparr>))"
proof -
  let ?st = "st\<lparr>invoked := invoked st @ [SetItem key (DOMString text)],
                 entries := AList.update key (DOMString text) (entries st)\<rparr>"
  from assms(1) have set: "setItem st key text = (Returned (), ?st) \<or> setItem st key text = (Fulfilled (), ?st)"
    by (auto simp: setItem_def)
  from assms(2) have ok: "onRemove ?st = Sync \<or> onRemove ?st = Async" by simp
  have keys: "filter (\<lambda>(k, v). \<not> (k \<in> set (map fst es) \<and> past keyName key k)) es
      = filter (\<lambda>(k, v). \<not> past keyName key k) es" for es :: "(string \<times> string) list"
    by (rule filter_cong) force+
  have "removePast keyName key (Object_keys ?st) ?st =
      Done (?st\<lparr>entries := filter (\<lambda>(k, v). \<not> past keyName key k) (entries ?st),
                invoked := invoked ?st @ map RemoveItem (filter (past keyName key) (map fst (entries ?st)))\<rparr>)"
    by (simp only: removePast_succeeds [OF ok] Object_keys_def keys)
  moreover from set assms(3) have "handlePersistValues (Some st) key keyName vals =
      map_run Some (removePast keyName key (Object_keys ?st) ?st)"
    by (auto simp: handlePersistValues_def)
  ultimately show ?thesis
    by simp
qed


lemma map_of_filter_key:
  "map_of (filter (\<lambda>(k, v). Q k) es) k = (if Q k then map_of es k else None)"
  by (induction es) auto

lemma handlePersistValues_stored:
  assumes "onSet st = Sync \<or> onSet st = Async" and "onRemove st = Sync \<or> onRemove st = Async"
    and "JSON_stringify vals = Inr text"
  shows "\<exists>st'. handlePersistValues (Some st) key keyName vals = Done (Some st')
      \<and> map_of (entries st') key = Some (DOMString text)
      \<and> (\<forall>k \<in> fst ` set (entries st'). indexOf k keyName > - 1 \<longrightarrow> k = key)
      \<and> (\<exists>removed. invoked st' = invoked st @ SetItem key (DOMString text) # map RemoveItem removed)"
proof -
  have "map_of (filter (\<lambda>(k, v). \<not> past keyName key k) (AList.update key (DOMString text) (entries st))) key
      = Some (DOMString text)"
    by (simp add: map_of_filter_key update_conv' past_def)
  moreover have "\<forall>k \<in> fst ` set (filter (\<lambda>(k, v). \<not> past keyName key k)
        (AList.update key (DOMString text) (entries st))). indexOf k keyName > - 1 \<longrightarrow> k = key"
    by (auto simp: past_def)
  ultimately show ?thesis
    unfolding handlePersistValues_succeeds [OF assms] by auto
qed

text \<open>
  Claim C2 (pruning). After a write that succeeds (the value serialises, \<^verbatim>\<open>setItem\<close> and
  \<^verbatim>\<open>removeItem\<close> neither throw nor reject), the store holds the payload under the key
  written, and every key of the store that starts with the form name and the delimiter is
  the key written: at most one key of the form is retained. The witness is the rotation of
  the claim: a first write under \<^verbatim>\<open>form_123\<close>, then one under \<^verbatim>\<open>form_456\<close>, after which
  \<^verbatim>\<open>form_123\<close> is gone.
\<close>

theorem pruning_invariant:
  assumes "onSet st = Sync \<or> onSet st = Async" and "onRemove st = Sync \<or> onRemove st = Async"
    and "JSON_stringify vals = Inr text"
  shows "\<exists>st'. handlePersistValues (Some st) key (formName @ KEY_DELIMITER) vals = Done (Some st')
      \<and> map_of (entries st') key = Some (DOMString text)
      \<and> (\<forall>k \<in> fst ` set (entries st'). prefix (formName @ KEY_DELIMITER) k \<longrightarrow> k = key)"
  using handlePersistValues_stored [OF assms, of key "formName @ KEY_DELIMITER"]
  by (meson indexOf_prefix)

theorem pruning_invariant_witness:
  "handlePersistValues (Some (store_of [] [])) ''form_123'' (''form'' @ KEY_DELIMITER)
       (JObj [(''a'', JNum 1)])
     = Done (Some (store_of [(''form_123'', ''{\"a\":1}'')] [SetItem ''form_123'' ''{\"a\":1}'']))
   \<and> JSON_stringify (JObj [(''a'', JNum 2)]) = Inr (Some ''{\"a\":2}'')
   \<and> (\<exists>st'. handlePersistValues
               (Some (store_of [(''form_123'', ''{\"a\":1}'')] [SetItem ''form_123'' ''{\"a\":1}'']))
               ''form_456'' (''form'' @ KEY_DELIMITER) (JObj [(''a'', JNum 2)]) = Done (Some st')
         \<and> map_of (entries st') ''form_456'' = Some ''{\"a\":2}''
         \<and> ''form_123'' \<notin> fst ` set (entries st'))"
proof -
  let ?st = "store_of [(''form_123'', ''{\"a\":1}'')] [SetItem ''form_123'' ''{\"a\":1}'']"
  have first: "handlePersistValues (Some (store_of [] [])) ''form_123'' (''form'' @ KEY_DELIMITER)
       (JObj [(''a'', JNum 1)]) = Done (Some ?st)"
    by (simp add: handlePersistValues_def setItem_def Object_keys_def DOMString_def indexOf_def
        KEY_DELIMITER_def eval_text)
  have h1: "onSet ?st = Sync \<or> onSet ?st = Async" and h2: "onRemove ?st = Sync \<or> onRemove ?st = Async"
    by simp_all
  have h3: "JSON_stringify (JObj [(''a'', JNum 2)]) = Inr (Some ''{\"a\":2}'')"
    by (simp add: eval_text)
  from pruning_invariant [OF h1 h2 h3, of "''form_456''" "''form''"]
  obtain st' where
    "handlePersistValues (Some ?st) ''form_456''
               (''form'' @ KEY_DELIMITER) (JObj [(''a'', JNum 2)]) = Done (Some st')"
    "map_of (entries st') ''form_456'' = Some ''{\"a\":2}''"
    "\<forall>k \<in> fst ` set (entries st'). prefix (''form'' @ KEY_DELIMITER) k \<longrightarrow> k = ''form_456''"
    by (auto simp: DOMString_def)
  moreover have "''form_123'' \<notin> fst ` set (entries st')"
  proof
    assume "''form_123'' \<in> fst ` set (entries st')"
    with calculation(3)
    have "prefix (''form'' @ KEY_DELIMITER) ''form_123'' \<longrightarrow> ''form_123'' = ''form_456''"
      by blast
    then show False
      by (simp add: KEY_DELIMITER_def)
  qed
  ultimately show ?thesis using first h3 by auto
qed

lemma handlePersist_closed_gate:
  "\<not> isValid \<Longrightarrow> \<not> truthy (persistInvalid props) \<Longrightarrow>
   handlePersist props isValid vals key keyName store = Done store"
  by (simp add: handlePersist_def)

lemma debounced_closed_gate:
  "\<not> truthy (persistInvalid props) \<Longrightarrow> list_all (\<lambda>r. \<not> fst r) fired \<Longrightarrow>
   debounced props key keyName fired store = (store, [])"
  by (induction fired) (auto simp: handlePersist_closed_gate)

text \<open>
  Claim C5 (the write gate). With \<^verbatim>\<open>persistInvalid\<close> not set and the form invalid at
  every call, any number of calls of \<^verbatim>\<open>handlePersist\<close> leaves the store as it was, the
  record of the calls made on it included, and no exception escapes; and a call that does
  anything to the store is one made with a valid form or with \<^verbatim>\<open>persistInvalid\<close>
  set.
\<close>

theorem write_gate:
  "(\<not> truthy (persistInvalid props) \<and> (\<forall>r \<in> set fired. \<not> fst r) \<longrightarrow>
      debounced props key keyName fired store = (store, []))
   \<and> (handlePersist props isValid vals key keyName store \<noteq> Done store \<longrightarrow>
      isValid \<or> truthy (persistInvalid props))"
proof (intro conjI impI)
  assume "\<not> truthy (persistInvalid props) \<and> (\<forall>r \<in> set fired. \<not> fst r)"
  then show "debounced props key keyName fired store = (store, [])"
    by (simp add: debounced_closed_gate list_all_iff)
next
  assume "handlePersist props isValid vals key keyName store \<noteq> Done store"
  then show "isValid \<or> truthy (persistInvalid props)"
    using handlePersist_closed_gate [of isValid props vals key keyName store] by blast
qed

theorem write_gate_witness:
  "\<not> truthy (persistInvalid default_props)
   \<and> debounced default_props ''form'' ''form_''
        [(False, JObj [(''a'', JStr ''x'')]), (False, JObj [(''a'', JStr ''xy'')]),
         (False, JObj [(''a'', JStr ''xyz'')])]
        (Some (store_of [(''form'', ''{\"a\":\"old\"}'')] []))
      = (Some (store_of [(''form'', ''{\"a\":\"old\"}'')] []), [])
   \<and> handlePersist default_props True (JObj [(''a'', JStr ''x'')]) ''form'' ''form_''
        (Some (store_of [(''form'', ''{\"a\":\"old\"}'')] []))
      \<noteq> Done (Some (store_of [(''form'', ''{\"a\":\"old\"}'')] []))"
proof -
  let ?store = "Some (store_of [(''form'', ''{\"a\":\"old\"}'')] [])"
  let ?fired = "[(False, JObj [(''a'', JStr ''x'')]), (False, JObj [(''a'', JStr ''xy'')]),
         (False, JObj [(''a'', JStr ''xyz'')])]"
  have closed: "\<not> truthy (persistInvalid default_props) \<and> (\<forall>r \<in> set ?fired. \<not> fst r)"
    by (simp add: truthy_def)
  have written: "handlePersist default_props True (JObj [(''a'', JStr ''x'')]) ''form'' ''form_'' ?store
      \<noteq> Done ?store"
    by (simp add: handlePersist_def handlePersistValues_def setItem_def Object_keys_def
        DOMString_def indexOf_def eval_text)
  from closed written
    write_gate [of default_props ?fired "''form''" "''form_''" ?store True "JObj [(''a'', JStr ''x'')]"]
  show ?thesis
    by blast
qed


lemma handlePersist_open_gate:
  "isValid \<or> truthy (persistInvalid props) \<Longrightarrow>
   handlePersist props isValid vals key keyName store =
     handlePersistValues store key keyName
       (case parseValues props of
          Some parse \<Rightarrow> parse (case ignoreValues props of Some ignored \<Rightarrow> omit vals ignored | None \<Rightarrow> vals)
        | None \<Rightarrow> (case ignoreValues props of Some ignored \<Rightarrow> omit vals ignored | None \<Rightarrow> vals))"
  by (simp add: handlePersist_def Let_def)

text \<open>
  Claim C6 (the write pipeline). With the gate open and a store that accepts the calls,
  what is stored under the key is the JSON text of the snapshot (the string
  \<^verbatim>\<open>undefined\<close> when the transform returns \<^verbatim>\<open>undefined\<close>), where the snapshot is the
  configured transform applied to the values without the properties named in the ignore
  list; it is written by one \<^verbatim>\<open>setItem\<close>, followed by removals only. The witness is the
  example of the claim: with \<^verbatim>\<open>password\<close> ignored, \<^verbatim>\<open>{username: "a", password: "b"}\<close>
  is stored as \<^verbatim>\<open>{"username":"a"}\<close>.
\<close>

theorem write_pipeline:
  assumes "isValid \<or> truthy (persistInvalid props)"
    and "onSet st = Sync \<or> onSet st = Async" and "onRemove st = Sync \<or> onRemove st = Async"
    and "filtered = (case ignoreValues props of
                       Some ignored \<Rightarrow> JObj (filter (\<lambda>(k, v). k \<notin> set ignored) (own_props vals))
                     | None \<Rightarrow> vals)"
    and "snapshot = (case parseValues props of Some transform \<Rightarrow> transform filtered | None \<Rightarrow> filtered)"
    and "JSON_stringify snapshot = Inr text"
  shows "\<exists>st'. handlePersist props isValid vals key keyName (Some st) = Done (Some st')
      \<and> map_of (entries st') key = Some (DOMString text)
      \<and> (\<exists>removed. invoked st' = invoked st @ SetItem key (DOMString text) # map RemoveItem removed)"
proof -
  from assms(1,4,5) have "handlePersist props isValid vals key keyName (Some st) =
      handlePersistValues (Some st) key keyName snapshot"
    by (simp add: handlePersist_open_gate omit_def split: option.splits)
  with handlePersistValues_stored [OF assms(2,3,6), of key keyName] show ?thesis
    by auto
qed

theorem write_pipeline_witness:
  "(True \<or> truthy (persistInvalid (default_props\<lparr>ignoreValues := Some [''password'']\<rparr>)))
   \<and> JSON_stringify (JObj [(''username'', JStr ''a'')]) = Inr (Some ''{\"username\":\"a\"}'')
   \<and> (\<exists>st'. handlePersist (default_props\<lparr>ignoreValues := Some [''password'']\<rparr>) True
               (JObj [(''username'', JStr ''a''), (''password'', JStr ''b'')])
               ''form'' ''form_'' (Some (store_of [] [])) = Done (Some st')
         \<and> map_of (entries st') ''form'' = Some ''{\"username\":\"a\"}''
         \<and> (\<exists>removed. invoked st' = SetItem ''form'' ''{\"username\":\"a\"}'' # map RemoveItem removed))"
proof -
  let ?props = "default_props\<lparr>ignoreValues := Some [''password'']\<rparr>"
  let ?vals = "JObj [(''username'', JStr ''a''), (''password'', JStr ''b'')]"
  have gate: "True \<or> truthy (persistInvalid ?props)" by simp
  have h1: "onSet (store_of [] []) = Sync \<or> onSet (store_of [] []) = Async"
    and h2: "onRemove (store_of [] []) = Sync \<or> onRemove (store_of [] []) = Async"
    by simp_all
  have filtered: "JObj [(''username'', JStr ''a'')] =
      (case ignoreValues ?props of
         Some ignored \<Rightarrow> JObj (filter (\<lambda>(k, v). k \<notin> set ignored) (own_props ?vals))
       | None \<Rightarrow> ?vals)"
    by simp
  have snapshot: "JObj [(''username'', JStr ''a'')] =
      (case parseValues ?props of
         Some transform \<Rightarrow> transform (JObj [(''username'', JStr ''a'')])
       | None \<Rightarrow> JObj [(''username'', JStr ''a'')])"
    by simp
  have payload: "JSON_stringify (JObj [(''username'', JStr ''a'')]) = Inr (Some ''{\"username\":\"a\"}'')"
    by (simp add: eval_text)
  from write_pipeline [OF gate h1 h2 filtered snapshot payload, of "''form''" "''form_''"] payload
  show ?thesis
    by (simp add: DOMString_def)
qed

section \<open>Properties of the store resolution and of the read path\<close>

lemma useStorage_falsy:
  "storage props \<in> {None, Some LocalStorageName, Some SessionStorageName} \<Longrightarrow>
   useStorage Falsy props = Inr None"
  by (auto simp: useStorage_def useBrowser_def)

lemma no_storage_noop:
  "persistedState None key = Inr (Null, [])"
  "handlePersistValues None key keyName vals = Done None"
  by (simp_all add: persistedState_def handlePersistValues_def)

text \<open>
  Claim C8 (no storage outside a browser). Where the global \<^verbatim>\<open>window\<close> is bound to a
  falsy value the two named stores resolve to \<^verbatim>\<open>undefined\<close>, and then reading and
  writing do nothing (\<open>useStorage_falsy\<close>, \<open>no_storage_noop\<close>). Where there is no
  binding of \<^verbatim>\<open>window\<close> at all, as in Node.js, \<^verbatim>\<open>!!window\<close> throws a
  \<^verbatim>\<open>ReferenceError\<close>: \<^verbatim>\<open>useStorage\<close> fails for every choice of storage, a store object
  of the caller's included, instead of resolving to \<^verbatim>\<open>undefined\<close>.
\<close>

theorem useStorage_without_window:
  "useBrowser Unbound = Inl ReferenceError \<and> useStorage Unbound props = Inl ReferenceError"
  by (simp add: useStorage_def useBrowser_def)

text \<open>
  Claim C9 (failures of the store). The claim: an operation of the store that throws or
  rejects is reported to the console and counts as not done, and nothing fails. Only a
  rejected promise of \<^verbatim>\<open>getItem\<close> is handled so. A \<^verbatim>\<open>setItem\<close> that throws (a full
  store) ends \<^verbatim>\<open>handlePersistValues\<close> with the exception, nothing being reported and no
  key pruned; a \<^verbatim>\<open>removeItem\<close> that throws ends it in the middle of the pruning; a
  \<^verbatim>\<open>getItem\<close> that throws ends the render.
\<close>

theorem store_failure_escapes:
  "handlePersistValues
      (Some (failing_store [(''form'', ''{}'')] Sync (Throws (StoreError ''QuotaExceededError'')) Sync))
      ''form'' ''form_'' (JObj [(''a'', JNum 1)])
     = Uncaught (StoreError ''QuotaExceededError'')
         (Some ((failing_store [(''form'', ''{}'')] Sync (Throws (StoreError ''QuotaExceededError'')) Sync)
                  \<lparr>invoked := [SetItem ''form'' ''{\"a\":1}'']\<rparr>))
   \<and> handlePersistValues
      (Some (failing_store [(''form_1'', ''{}''), (''form_2'', ''{}'')] Sync Sync (Throws (StoreError ''denied''))))
      ''form_3'' ''form_'' (JObj [(''a'', JNum 1)])
     = Uncaught (StoreError ''denied'')
         (Some \<lparr>entries = [(''form_1'', ''{}''), (''form_2'', ''{}''), (''form_3'', ''{\"a\":1}'')],
                onGet = Sync, onSet = Sync, onRemove = Throws (StoreError ''denied''),
                invoked = [SetItem ''form_3'' ''{\"a\":1}'', RemoveItem ''form_1'']\<rparr>)
   \<and> persistedState (Some (failing_store [] (Throws (StoreError ''SecurityError'')) Sync Sync)) ''form''
     = Inl (StoreError ''SecurityError'')"
  by (simp add: handlePersistValues_def persistedState_def setItem_def removeItem_def getItem_def
      Object_keys_def DOMString_def indexOf_def eval_text)

text \<open>
  Claim C3 (the read is awaited). The claim: the restored value is the answer of the
  store, whether \<^verbatim>\<open>getItem\<close> returns it or a promise of it. The memoised state is
  \<^verbatim>\<open>undefined\<close> in both cases, the answer of the store being left in a job that assigns
  a variable nobody reads; so on the first render the stored \<^verbatim>\<open>{"a":2}\<close> is not merged
  into the form, whereas the effect, given that payload, would set the values to it.
\<close>

theorem state_is_not_awaited:
  "persistedState (Some (store_of [(''form'', ''{\"a\":2}'')] [])) ''form''
     = Inr (Undefined, [Then (Some ''{\"a\":2}'')])
   \<and> persistedState (Some ((store_of [(''form'', ''{\"a\":2}'')] [])\<lparr>onGet := Async\<rparr>)) ''form''
     = Inr (Undefined, [Then (Some ''{\"a\":2}'')])
   \<and> firstRender
        (Browser \<lparr>localStorage = store_of [(''form'', ''{\"a\":2}'')] [], sessionStorage = store_of [] []\<rparr>)
        default_props JSON_parse (JObj [(''a'', JNum 1)])
        \<lparr>formValues = JObj [(''a'', JNum 1)], setValuesCalls = [], console = []\<rparr>
     = Inr \<lparr>formValues = JObj [(''a'', JNum 1)], setValuesCalls = [], console = []\<rparr>
   \<and> restoreEffect JSON_parse (JObj [(''a'', JNum 1)]) (Some ''{\"a\":1}'') (Payload ''{\"a\":2}'')
        \<lparr>formValues = JObj [(''a'', JNum 1)], setValuesCalls = [], console = []\<rparr>
     = \<lparr>formValues = JObj [(''a'', JNum 2)], setValuesCalls = [JObj [(''a'', JNum 2)]], console = []\<rparr>"
proof -
  have parsed: "JSON_parse ''{\"a\":2}'' = Inr (JObj [(''a'', JNum 2)])"
    by code_simp
  have merged: "spread (JObj [(''a'', JNum 1)]) (JObj [(''a'', JNum 2)]) = JObj [(''a'', JNum 2)]"
    by (simp add: spread_def define_prop_def is_index_def)
  show ?thesis
    by (simp add: persistedState_def getItem_def firstRender_def storageKey_def useStorage_def
        useBrowser_def truthy_def restoreEffect_def parsed merged setValues_def Let_def eval_text)
qed

lemma persistedState_never_payload:
  "persistedState store key \<noteq> Inr (Payload text, jobs)"
  by (auto simp: persistedState_def Let_def split: option.splits completion.splits)

lemma fold_run_job_values:
  "formValues (fold run_job jobs s) = formValues s
   \<and> setValuesCalls (fold run_job jobs s) = setValuesCalls s"
proof (induction jobs arbitrary: s)
  case Nil
  then show ?case by simp
next
  case (Cons j jobs)
  then show ?case by (cases j) simp_all
qed

lemma firstRender_restores_nothing:
  assumes "firstRender g props parse initialValues s = Inr s'"
  shows "formValues s' = formValues s \<and> setValuesCalls s' = setValuesCalls s"
proof -
  from assms obtain key store persistedString jobs stringValues where
    state: "persistedState store key = Inr (persistedString, jobs)"
    and s': "s' = restoreEffect parse initialValues stringValues persistedString (fold run_job jobs s)"
    by (auto simp: firstRender_def split: sum.splits prod.splits)
  from state have "persistedString = Undefined \<or> persistedString = Null"
    using persistedState_never_payload [of store key _ jobs] by (cases persistedString) auto
  with s' show ?thesis
    by (auto simp: restoreEffect_def fold_run_job_values)
qed

lemma getItem_rejection_reported:
  "onGet st = Rejects e \<Longrightarrow>
   persistedState (Some st) key = Inr (Undefined, [Catch e])
   \<and> console (fold run_job [Catch e] s) = console s @ [ErrorGettingItem e]"
  by (simp add: persistedState_def getItem_def)

lemma setItem_throw_escapes:
  "onSet st = Throws e \<Longrightarrow> JSON_stringify vals = Inr payload \<Longrightarrow>
   handlePersistValues (Some st) key keyName vals =
     Uncaught e (Some (st\<lparr>invoked := invoked st @ [SetItem key (DOMString payload)]\<rparr>))"
  by (simp add: handlePersistValues_def setItem_def)

section \<open>Properties of the restore effect\<close>

lemma map_of_insert_index:
  "k \<notin> fst ` set ps \<Longrightarrow> map_of (insert_index k v ps) = (map_of ps)(k \<mapsto> v)"
  by (induction ps) (auto simp: fun_upd_twist)

lemma map_of_define_prop: "map_of (define_prop k v ps) = (map_of ps)(k \<mapsto> v)"
  by (simp add: define_prop_def map_of_insert_index update_conv')

lemma map_of_fold_define_prop:
  "map_of (fold (\<lambda>(k, v). define_prop k v) xs acc) = map_of acc ++ map_of (rev xs)"
proof (induction xs arbitrary: acc)
  case Nil
  then show ?case by simp
next
  case (Cons x xs)
  obtain k v where x: "x = (k, v)" by (cases x)
  show ?case
    by (simp add: x Cons.IH map_of_define_prop map_add_def fun_eq_iff split: option.splits)
qed

lemma spread_map_of:
  "\<exists>props. spread a b = JObj props
     \<and> map_of props = map_of (rev (own_props a)) ++ map_of (rev (own_props b))"
  by (simp add: spread_def map_of_fold_define_prop)

lemma stringify_props_ok:
  "\<not> isl (stringify_props ps) \<longleftrightarrow> (\<forall>p \<in> set ps. \<not> isl (JSON_stringify (snd p)))"
  by (induction ps) (auto split: sum.splits)

lemma stringify_elems_ok:
  "\<not> isl (stringify_elems xs) \<longleftrightarrow> (\<forall>x \<in> set xs. \<not> isl (JSON_stringify x))"
  by (induction xs) (auto split: sum.splits)

lemma set_insert_index: "set (insert_index k v ps) = insert (k, v) (set ps)"
  by (induction ps) (auto split: if_splits)

lemma set_update_subset: "set (AList.update k v ps) \<subseteq> insert (k, v) (set ps)"
  by (induction ps) auto

lemma set_define_prop: "set (define_prop k v ps) \<subseteq> insert (k, v) (set ps)"
  using set_update_subset [of k v ps] by (simp add: define_prop_def set_insert_index)

lemma set_fold_define_prop:
  "set (fold (\<lambda>(k, v). define_prop k v) xs acc) \<subseteq> set xs \<union> set acc"
proof (induction xs arbitrary: acc)
  case Nil
  then show ?case by simp
next
  case (Cons x xs)
  obtain k v where x: "x = (k, v)" by (cases x)
  from Cons.IH [of "define_prop k v acc"] set_define_prop [of k v acc] show ?case
    by (auto simp: x)
qed

lemma own_props_ok:
  "\<not> isl (JSON_stringify x) \<Longrightarrow> \<forall>p \<in> set (own_props x). \<not> isl (JSON_stringify (snd p))"
proof (cases x)
  case (JArr xs)
  assume "\<not> isl (JSON_stringify x)"
  with JArr have "\<forall>x \<in> set xs. \<not> isl (JSON_stringify x)"
    by (auto simp: stringify_elems_ok [symmetric] split: sum.splits)
  with JArr show ?thesis
    by (auto dest: set_zip_rightD)
next
  case (JObj ps)
  assume "\<not> isl (JSON_stringify x)"
  with JObj show ?thesis
    by (auto simp: stringify_props_ok [symmetric] split: sum.splits)
next
  case (JStr s)
  then show ?thesis
    by (auto dest!: set_zip_rightD)
qed simp_all

lemma spread_serializes:
  assumes "JSON_stringify a = Inr ra" and "JSON_stringify b = Inr rb"
  shows "\<exists>text. JSON_stringify (spread a b) = Inr (Some text)"
proof -
  let ?ps = "fold (\<lambda>(k, v). define_prop k v) (own_props a @ own_props b) []"
  from assms own_props_ok [of a] own_props_ok [of b]
  have "\<forall>p \<in> set (own_props a @ own_props b). \<not> isl (JSON_stringify (snd p))"
    by auto
  with set_fold_define_prop [of "own_props a @ own_props b" "[]"]
  have "\<forall>p \<in> set ?ps. \<not> isl (JSON_stringify (snd p))"
    by (auto dest: subsetD)
  then have "\<not> isl (stringify_props ?ps)"
    by (simp only: stringify_props_ok)
  then show ?thesis
    by (cases "stringify_props ?ps") (simp_all add: spread_def)
qed


lemma restoreEffect_parsed:
  assumes "payload \<noteq> []" and "parse payload = Inr persistedValues"
    and "JSON_stringify (spread initialValues persistedValues) = Inr text"
  shows "restoreEffect parse initialValues stringValues (Payload payload) s =
     (if stringValues \<noteq> text then setValues (spread initialValues persistedValues) s else s)"
  using assms by (simp add: restoreEffect_def Let_def)

text \<open>
  Claim C1 (merge and idempotence of the restore). Let the payload be non-empty and parse,
  let the render have computed \<^verbatim>\<open>stringValues\<close> from the current values, and let the
  initial values and the parsed value serialise (the initial values do when the render got
  as far as the effect, and a value \<^verbatim>\<open>JSON.parse\<close> returns does). Then the merged object
  has the properties of the initial values overridden by those of the persisted value; it
  serialises; the effect calls \<^verbatim>\<open>setValues\<close> with it exactly when its JSON text differs
  from \<^verbatim>\<open>stringValues\<close>; afterwards the values of the form serialise to the text of the
  merged object; and the effect run again on that state with the same payload changes
  nothing, neither the values nor the record of \<^verbatim>\<open>setValues\<close> calls nor the console.
\<close>

theorem restore_merge_idempotent:
  assumes "payload \<noteq> []" and "parse payload = Inr persistedValues"
    and "JSON_stringify (formValues s) = Inr stringValues"
    and "JSON_stringify initialValues = Inr dep"
    and "JSON_stringify persistedValues = Inr reserialized"
  shows "(\<exists>props. spread initialValues persistedValues = JObj props
            \<and> map_of props =
                map_of (rev (own_props initialValues)) ++ map_of (rev (own_props persistedValues)))
       \<and> (\<exists>text. JSON_stringify (spread initialValues persistedValues) = Inr (Some text)
            \<and> restoreEffect parse initialValues stringValues (Payload payload) s =
                (if stringValues \<noteq> Some text
                 then setValues (spread initialValues persistedValues) s else s)
            \<and> JSON_stringify
                 (formValues (restoreEffect parse initialValues stringValues (Payload payload) s)) =
                Inr (Some text)
            \<and> restoreEffect parse initialValues (Some text) (Payload payload)
                 (restoreEffect parse initialValues stringValues (Payload payload) s) =
                restoreEffect parse initialValues stringValues (Payload payload) s)"
proof -
  from spread_serializes [OF assms(4,5)] obtain merged_text where
    merged: "JSON_stringify (spread initialValues persistedValues) = Inr (Some merged_text)"
    by blast
  let ?s' = "restoreEffect parse initialValues stringValues (Payload payload) s"
  have first: "?s' = (if stringValues \<noteq> Some merged_text
      then setValues (spread initialValues persistedValues) s else s)"
    by (rule restoreEffect_parsed [where parse = parse, OF assms(1,2) merged])
  have content: "JSON_stringify (formValues ?s') = Inr (Some merged_text)"
    using assms(3) merged by (simp add: first setValues_def)
  have second: "restoreEffect parse initialValues (Some merged_text) (Payload payload) ?s' = ?s'"
    by (simp add: restoreEffect_parsed [where parse = parse, OF assms(1,2) merged])
  from spread_map_of [of initialValues persistedValues] merged first content second
  show ?thesis
    by blast
qed

theorem restore_merge_idempotent_witness:
  "JSON_parse ''{\"b\":3,\"c\":4}'' = Inr (JObj [(''b'', JNum 3), (''c'', JNum 4)])
   \<and> spread (JObj [(''a'', JNum 1), (''b'', JNum 2)]) (JObj [(''b'', JNum 3), (''c'', JNum 4)])
       = JObj [(''a'', JNum 1), (''b'', JNum 3), (''c'', JNum 4)]
   \<and> restoreEffect JSON_parse (JObj [(''a'', JNum 1), (''b'', JNum 2)]) (Some ''{\"a\":1,\"b\":2}'')
        (Payload ''{\"b\":3,\"c\":4}'')
        \<lparr>formValues = JObj [(''a'', JNum 1), (''b'', JNum 2)], setValuesCalls = [], console = []\<rparr>
       = \<lparr>formValues = JObj [(''a'', JNum 1), (''b'', JNum 3), (''c'', JNum 4)],
          setValuesCalls = [JObj [(''a'', JNum 1), (''b'', JNum 3), (''c'', JNum 4)]], console = []\<rparr>
   \<and> restoreEffect JSON_parse (JObj [(''a'', JNum 1), (''b'', JNum 2)]) (Some ''{\"a\":1,\"b\":3,\"c\":4}'')
        (Payload ''{\"b\":3,\"c\":4}'')
        \<lparr>formValues = JObj [(''a'', JNum 1), (''b'', JNum 3), (''c'', JNum 4)],
          setValuesCalls = [JObj [(''a'', JNum 1), (''b'', JNum 3), (''c'', JNum 4)]], console = []\<rparr>
       = \<lparr>formValues = JObj [(''a'', JNum 1), (''b'', JNum 3), (''c'', JNum 4)],
          setValuesCalls = [JObj [(''a'', JNum 1), (''b'', JNum 3), (''c'', JNum 4)]], console = []\<rparr>"
proof -
  let ?init = "JObj [(''a'', JNum 1), (''b'', JNum 2)]"
  let ?pv = "JObj [(''b'', JNum 3), (''c'', JNum 4)]"
  let ?s = "\<lparr>formValues = ?init, setValuesCalls = [], console = []\<rparr>"
  have h1: "''{\"b\":3,\"c\":4}'' \<noteq> []" by simp
  have h2: "JSON_parse ''{\"b\":3,\"c\":4}'' = Inr ?pv" by code_simp
  have h3: "JSON_stringify (formValues ?s) = Inr (Some ''{\"a\":1,\"b\":2}'')"
    by (simp add: eval_text)
  have h4: "JSON_stringify ?init = Inr (Some ''{\"a\":1,\"b\":2}'')"
    by (simp add: eval_text)
  have h5: "JSON_stringify ?pv = Inr (Some ''{\"b\":3,\"c\":4}'')"
    by (simp add: eval_text)
  have merged: "spread ?init ?pv = JObj [(''a'', JNum 1), (''b'', JNum 3), (''c'', JNum 4)]"
    by (simp add: spread_def define_prop_def is_index_def)
  have serialized: "JSON_stringify (JObj [(''a'', JNum 1), (''b'', JNum 3), (''c'', JNum 4)])
      = Inr (Some ''{\"a\":1,\"b\":3,\"c\":4}'')"
    by (simp add: eval_text)
  from restore_merge_idempotent [where parse = JSON_parse, OF h1 h2 h3 h4 h5]
  obtain t where
    t: "JSON_stringify (spread ?init ?pv) = Inr (Some t)"
    and once: "restoreEffect JSON_parse ?init (Some ''{\"a\":1,\"b\":2}'') (Payload ''{\"b\":3,\"c\":4}'') ?s =
        (if Some ''{\"a\":1,\"b\":2}'' \<noteq> Some t then setValues (spread ?init ?pv) ?s else ?s)"
    and twice: "restoreEffect JSON_parse ?init (Some t) (Payload ''{\"b\":3,\"c\":4}'')
        (restoreEffect JSON_parse ?init (Some ''{\"a\":1,\"b\":2}'') (Payload ''{\"b\":3,\"c\":4}'') ?s) =
        restoreEffect JSON_parse ?init (Some ''{\"a\":1,\"b\":2}'') (Payload ''{\"b\":3,\"c\":4}'') ?s"
    by blast
  from t have t_eq: "t = ''{\"a\":1,\"b\":3,\"c\":4}''"
    by (simp only: merged serialized sum.inject option.inject)
  from once have once': "restoreEffect JSON_parse ?init (Some ''{\"a\":1,\"b\":2}'') (Payload ''{\"b\":3,\"c\":4}'') ?s =
      \<lparr>formValues = JObj [(''a'', JNum 1), (''b'', JNum 3), (''c'', JNum 4)],
        setValuesCalls = [JObj [(''a'', JNum 1), (''b'', JNum 3), (''c'', JNum 4)]], console = []\<rparr>"
    by (simp add: t_eq merged setValues_def)
  from twice show ?thesis
    by (simp add: h2 merged once' t_eq)
qed

lemma restoreEffect_parse_failure:
  "payload \<noteq> [] \<Longrightarrow> parse payload = Inl e \<Longrightarrow>
   restoreEffect parse initialValues stringValues (Payload payload) s =
     s\<lparr>console := console s @ [ParseNotPossible e]\<rparr>"
  by (simp add: restoreEffect_def)

lemma restoreEffect_no_payload:
  "restoreEffect parse initialValues stringValues Undefined s = s"
  "restoreEffect parse initialValues stringValues Null s = s"
  "restoreEffect parse initialValues stringValues (Payload []) s = s"
  by (simp_all add: restoreEffect_def)

text \<open>
  Claim C7 (a payload that is not JSON). The claim: for every persisted payload that is
  not valid JSON the merge is aborted, the values of the form stay as they are, exactly one
  diagnostic event is emitted and nothing reaches the caller. The effect does that with a
  payload it is given (\<open>restoreEffect_parse_failure\<close>): handed \<^verbatim>\<open>{bad\<close>, it leaves the
  values and writes one line to the console. But the component never hands it the payload:
  with \<^verbatim>\<open>{bad\<close> stored under the key, the memoised state of the first render is
  \<^verbatim>\<open>undefined\<close>, the effect parses nothing, and the console stays empty. The values are
  left unchanged and nothing is propagated, but no diagnostic event is emitted.
\<close>

theorem corrupt_payload_not_reported:
  "JSON_parse ''{bad'' = Inl SyntaxError
   \<and> persistedState (Some (store_of [(''form'', ''{bad'')] [])) ''form''
     = Inr (Undefined, [Then (Some ''{bad'')])
   \<and> firstRender
        (Browser \<lparr>localStorage = store_of [(''form'', ''{bad'')] [], sessionStorage = store_of [] []\<rparr>)
        default_props JSON_parse (JObj [(''a'', JNum 1)])
        \<lparr>formValues = JObj [(''a'', JNum 5)], setValuesCalls = [], console = []\<rparr>
     = Inr \<lparr>formValues = JObj [(''a'', JNum 5)], setValuesCalls = [], console = []\<rparr>
   \<and> restoreEffect JSON_parse (JObj [(''a'', JNum 1)]) (Some ''{\"a\":5}'') (Payload ''{bad'')
        \<lparr>formValues = JObj [(''a'', JNum 5)], setValuesCalls = [], console = []\<rparr>
     = \<lparr>formValues = JObj [(''a'', JNum 5)], setValuesCalls = [],
        console = [ParseNotPossible SyntaxError]\<rparr>"
proof -
  have rejected: "JSON_parse ''{bad'' = Inl SyntaxError"
    by code_simp
  have given: "restoreEffect JSON_parse (JObj [(''a'', JNum 1)]) (Some ''{\"a\":5}'') (Payload ''{bad'')
        \<lparr>formValues = JObj [(''a'', JNum 5)], setValuesCalls = [], console = []\<rparr>
     = \<lparr>formValues = JObj [(''a'', JNum 5)], setValuesCalls = [],
        console = [ParseNotPossible SyntaxError]\<rparr>"
    by (simp add: restoreEffect_parse_failure [where parse = JSON_parse, OF _ rejected])
  have rendered: "firstRender
        (Browser \<lparr>localStorage = store_of [(''form'', ''{bad'')] [], sessionStorage = store_of [] []\<rparr>)
        default_props JSON_parse (JObj [(''a'', JNum 1)])
        \<lparr>formValues = JObj [(''a'', JNum 5)], setValuesCalls = [], console = []\<rparr>
     = Inr \<lparr>formValues = JObj [(''a'', JNum 5)], setValuesCalls = [], console = []\<rparr>"
    by (simp add: persistedState_def getItem_def firstRender_def storageKey_def useStorage_def
        useBrowser_def truthy_def restoreEffect_no_payload eval_text)
  have state: "persistedState (Some (store_of [(''form'', ''{bad'')] [])) ''form''
     = Inr (Undefined, [Then (Some ''{bad'')])"
    by (simp add: persistedState_def getItem_def)
  from rejected state rendered given show ?thesis
    by (intro conjI)
qed

end
